theory Spec2Isabelle
  imports Complex_Main "HOL-Library.Sublist"
begin

section \<open>Python values, exceptions and small library functions\<close>

text \<open>
  The harness (\<^verbatim>\<open>abaverify/main.py\<close>) is Python 2 code. The values that occur in a
  structured results file are numbers, strings, tuples and lists. Numbers are modelled as
  exact reals: rounding of machine floats is outside this development.
\<close>

datatype pyval =
    PyNum real
  | PyStr string
  | PyTuple "pyval list"
  | PyList "pyval list"

text \<open>
  Exceptions are values. \<open>AssertionFailed\<close> is the \<^verbatim>\<open>failureException\<close> raised by the
  \<^verbatim>\<open>unittest\<close> assertion methods; \<open>TestFailure msg\<close> is the same exception raised by
  \<^verbatim>\<open>self.fail(msg)\<close>, with its message.
\<close>

datatype error =
    AssertionFailed
  | TestFailure string
  | KeyError string
  | IndexError
  | TypeError
  | OSError string
  | IOError string
  | Exception string

type_synonym result_record = "string \<rightharpoonup> pyval"

text \<open>Sequencing of statements that may raise: the first exception ends the block.\<close>

definition bind_res :: "error + 'a \<Rightarrow> ('a \<Rightarrow> error + 'b) \<Rightarrow> error + 'b" where
  "bind_res m f = (case m of Inl e \<Rightarrow> Inl e | Inr x \<Rightarrow> f x)"

text \<open>\<^verbatim>\<open>hasattr(v, '__iter__')\<close>: in Python 2 lists and tuples have the attribute,
  numbers and \<^verbatim>\<open>str\<close> do not.\<close>

fun has_iter :: "pyval \<Rightarrow> bool" where
  "has_iter (PyTuple _) = True"
| "has_iter (PyList _) = True"
| "has_iter _ = False"

text \<open>\<^verbatim>\<open>isinstance(v, tuple)\<close>\<close>

fun is_tuple :: "pyval \<Rightarrow> bool" where
  "is_tuple (PyTuple _) = True"
| "is_tuple _ = False"

text \<open>\<^verbatim>\<open>len(v)\<close>: a number has no length.\<close>

fun py_len :: "pyval \<Rightarrow> error + nat" where
  "py_len (PyNum _) = Inl TypeError"
| "py_len (PyStr s) = Inr (length s)"
| "py_len (PyTuple vs) = Inr (length vs)"
| "py_len (PyList vs) = Inr (length vs)"

text \<open>The elements an iteration over \<open>v\<close> yields (used by \<^verbatim>\<open>zip\<close>, after \<^verbatim>\<open>len\<close>
  has succeeded on \<open>v\<close>).\<close>

fun py_items :: "pyval \<Rightarrow> pyval list" where
  "py_items (PyNum _) = []"
| "py_items (PyStr s) = map (\<lambda>c. PyStr [c]) s"
| "py_items (PyTuple vs) = vs"
| "py_items (PyList vs) = vs"

text \<open>\<^verbatim>\<open>v[i]\<close> for an index \<open>i \<ge> 0\<close>: a number is not subscriptable, an index past
  the end raises \<^verbatim>\<open>IndexError\<close>.\<close>

fun py_index :: "pyval \<Rightarrow> nat \<Rightarrow> error + pyval" where
  "py_index (PyNum _) i = Inl TypeError"
| "py_index v i = (if i < length (py_items v) then Inr (py_items v ! i) else Inl IndexError)"

text \<open>\<^verbatim>\<open>r[k]\<close> on a dictionary\<close>

definition lookup :: "result_record \<Rightarrow> string \<Rightarrow> error + pyval" where
  "lookup r k = (case r k of None \<Rightarrow> Inl (KeyError k) | Some v \<Rightarrow> Inr v)"

text \<open>\<^verbatim>\<open>unittest.TestCase.assertEqual(first, second)\<close>\<close>

definition assertEqual :: "'a \<Rightarrow> 'a \<Rightarrow> error + unit" where
  "assertEqual first second = (if first = second then Inr () else Inl AssertionFailed)"

text \<open>
  \<^verbatim>\<open>unittest.TestCase.assertAlmostEqual(first, second, delta=delta)\<close> of Python 2.7:
  \<^verbatim>\<open>
    if first == second:
        return
    ...
    if delta is not None:
        if abs(first - second) <= delta:
            return
    ...
    raise self.failureException(msg)
  \<close>
  Equal operands pass without looking at \<open>delta\<close>. The subtraction raises
  \<^verbatim>\<open>TypeError\<close> unless both operands are numbers. Python 2 orders a number below every
  string, tuple and list, so a difference compared with a non-numeric \<open>delta\<close> is
  \<open>\<le>\<close> it.
\<close>

fun assertAlmostEqual :: "pyval \<Rightarrow> pyval \<Rightarrow> pyval \<Rightarrow> error + unit" where
  "assertAlmostEqual first second delta =
     (if first = second then Inr ()
      else (case (first, second) of
              (PyNum a, PyNum b) \<Rightarrow>
                (case delta of
                   PyNum d \<Rightarrow> if \<bar>a - b\<bar> \<le> d then Inr () else Inl AssertionFailed
                 | _ \<Rightarrow> Inr ())
            | _ \<Rightarrow> Inl TypeError))"

text \<open>\<^verbatim>\<open>os.path.join(a, b)\<close> of \<^verbatim>\<open>posixpath\<close>\<close>

definition path_join :: "string \<Rightarrow> string \<Rightarrow> string" where
  "path_join a b =
     (if prefix ''/'' b then b
      else if a = [] \<or> suffix ''/'' a then a @ b
      else a @ ''/'' @ b)"

section \<open>The result comparator: \<^verbatim>\<open>TestCase._runAssertionsOnResults\<close>\<close>

text \<open>The loop over \<^verbatim>\<open>zip(computed_val, reference_val, tolerance)\<close>: the first failing
  component raises.\<close>

fun assert_components :: "(pyval \<times> pyval \<times> pyval) list \<Rightarrow> error + unit" where
  "assert_components [] = Inr ()"
| "assert_components ((cv, rv, tol) # rest) =
     (case assertAlmostEqual cv rv tol of
        Inl e \<Rightarrow> Inl e
      | Inr _ \<Rightarrow> assert_components rest)"

text \<open>The body of the loop \<^verbatim>\<open>for i in range(0, len(r['computedValue']))\<close>, lines 498 to 520.\<close>

definition check_element :: "result_record \<Rightarrow> nat \<Rightarrow> error + unit" where
  "check_element r i =
     bind_res (lookup r ''computedValue'') (\<lambda>cvs.
     bind_res (py_index cvs i) (\<lambda>computed_val.
     bind_res (lookup r ''referenceValue'') (\<lambda>rvs.
     bind_res (py_index rvs i) (\<lambda>reference_val.
       if is_tuple reference_val then
         bind_res (lookup r ''tolerance'') (\<lambda>tolerance_for_result_obj.
         bind_res (py_len computed_val) (\<lambda>lc.
         bind_res (py_len reference_val) (\<lambda>lr.
         bind_res (assertEqual lc lr) (\<lambda>_.
         bind_res (if is_tuple tolerance_for_result_obj then Inr tolerance_for_result_obj
                   else py_index tolerance_for_result_obj i) (\<lambda>tolerance.
         bind_res (py_len tolerance) (\<lambda>lt.
         bind_res (assertEqual lr lt) (\<lambda>_.
           assert_components
             (zip (py_items computed_val)
                (zip (py_items reference_val) (py_items tolerance))))))))))
       else
         bind_res (lookup r ''tolerance'') (\<lambda>tols.
         bind_res (py_index tols i) (\<lambda>tolerance_for_result_obj.
           assertAlmostEqual computed_val reference_val tolerance_for_result_obj))))))"

fun check_elements :: "result_record \<Rightarrow> nat list \<Rightarrow> error + unit" where
  "check_elements r [] = Inr ()"
| "check_elements r (i # is) =
     (case check_element r i of Inl e \<Rightarrow> Inl e | Inr _ \<Rightarrow> check_elements r is)"

text \<open>The branch for a computed value without \<^verbatim>\<open>__iter__\<close>, lines 522 to 529.\<close>

definition check_scalar :: "result_record \<Rightarrow> error + unit" where
  "check_scalar r =
     (if r ''tolerance'' \<noteq> None then
        bind_res (lookup r ''computedValue'') (\<lambda>cv.
        bind_res (lookup r ''referenceValue'') (\<lambda>rv.
        bind_res (lookup r ''tolerance'') (\<lambda>tol.
          assertAlmostEqual cv rv tol)))
      else if r ''referenceValue'' \<noteq> None then
        bind_res (lookup r ''computedValue'') (\<lambda>cv.
        bind_res (lookup r ''referenceValue'') (\<lambda>rv.
          assertEqual cv rv))
      else Inr ())"

text \<open>The body of \<^verbatim>\<open>for r in results\<close>, lines 495 to 529.\<close>

definition check_record :: "result_record \<Rightarrow> error + unit" where
  "check_record r =
     bind_res (lookup r ''computedValue'') (\<lambda>cv.
       if has_iter cv then check_elements r [0 ..< length (py_items cv)]
       else check_scalar r)"

fun check_results :: "result_record list \<Rightarrow> error + unit" where
  "check_results [] = Inr ()"
| "check_results (r # rs) =
     (case check_record r of Inl e \<Rightarrow> Inl e | Inr _ \<Rightarrow> check_results rs)"

text \<open>
  \<^verbatim>\<open>_runAssertionsOnResults(self, jobName, func, arguments)\<close>. The file system is the set
  \<open>files\<close> of paths of regular files and \<open>cwd\<close> is \<^verbatim>\<open>os.getcwd()\<close>. The import of the
  results module is the parameter \<open>import_results\<close>, from the module name to the value of
  its \<^verbatim>\<open>results\<close> attribute (or the exception the import raises); the external assertion
  function \<open>func\<close> is a parameter as well.
\<close>

definition results_message :: "string \<Rightarrow> string" where
  "results_message outputFilePath =
     ''No results file provided by process_results.py. Looking for '' @ [CHR 0x22]
       @ outputFilePath @ [CHR 0x22]"

definition runAssertionsOnResults ::
  "string set \<Rightarrow> string \<Rightarrow> (string \<Rightarrow> error + result_record list) \<Rightarrow>
   string \<Rightarrow> (string \<Rightarrow> error + unit) option \<Rightarrow> error + unit" where
  "runAssertionsOnResults files cwd import_results jobName func =
     (let outputFileName = jobName @ ''_results.py'';
          outputFileDir = path_join cwd ''testOutput'';
          outputFilePath = path_join outputFileDir outputFileName
      in case func of
           Some f \<Rightarrow> f jobName
         | None \<Rightarrow>
             if outputFilePath \<in> files then
               (case import_results (take (length outputFileName - 3) outputFileName) of
                  Inl e \<Rightarrow> Inl e
                | Inr results \<Rightarrow> check_results results)
             else Inl (TestFailure (results_message outputFilePath)))"

section \<open>Run-time instrumentation: \<^verbatim>\<open>_measureRunTimes\<close>\<close>

text \<open>
  The six attributes of the class start as \<^verbatim>\<open>None\<close>. A write to \<^verbatim>\<open>sys.stderr\<close> is a
  \<open>report\<close> carrying the duration that the message formats.
\<close>

record measureRunTimes =
  Compile_start :: "real option"
  Compile_end :: "real option"
  packager_start :: "real option"
  packager_end :: "real option"
  solver_start :: "real option"
  solver_end :: "real option"

datatype report =
    CompileRunTime real
  | PackagerRunTime real
  | SolverRunTime real

definition init_measureRunTimes :: measureRunTimes where
  "init_measureRunTimes =
     \<lparr>Compile_start = None, Compile_end = None, packager_start = None,
      packager_end = None, solver_start = None, solver_end = None\<rparr>"

text \<open>\<^verbatim>\<open>end - start\<close> on attributes that are a float or \<^verbatim>\<open>None\<close>: subtracting
  \<^verbatim>\<open>None\<close> raises \<^verbatim>\<open>TypeError\<close>.\<close>

fun py_sub :: "real option \<Rightarrow> real option \<Rightarrow> error + real" where
  "py_sub (Some a) (Some b) = Inr (a - b)"
| "py_sub _ _ = Inl TypeError"

abbreviation LF :: char where "LF \<equiv> CHR 0x0A"
abbreviation CR :: char where "CR \<equiv> CHR 0x0D"

text \<open>\<^verbatim>\<open>re.match(r'.*' + pat + r'.*', line)\<close>: the dot does not match a newline, so
  \<open>pat\<close> has to occur before the first one.\<close>

definition match_anywhere :: "string \<Rightarrow> string \<Rightarrow> bool" where
  "match_anywhere pat line = sublist pat (takeWhile (\<lambda>c. c \<noteq> LF) line)"

text \<open>
  \<^verbatim>\<open>processLine(self, line)\<close>, with the value \<open>now\<close> of \<^verbatim>\<open>time.time()\<close>. The result is
  the exception raised (if any), the object after the call and the reports written.
  \<^verbatim>\<open>re.match\<close> of a literal pattern is a prefix test.
\<close>

definition processLine ::
  "real \<Rightarrow> string \<Rightarrow> measureRunTimes \<Rightarrow> error option \<times> measureRunTimes \<times> report list" where
  "processLine now line self =
     (if prefix ''Begin Linking'' line then
        (None, self\<lparr>Compile_start := Some now\<rparr>, [])
      else if prefix ''End Linking'' line then
        (let self' = self\<lparr>Compile_end := Some now\<rparr> in
         case py_sub (Compile_end self') (Compile_start self') of
           Inl e \<Rightarrow> (Some e, self', [])
         | Inr compile_time \<Rightarrow> (None, self', [CompileRunTime compile_time]))
      else if prefix ''Begin Abaqus/Explicit Packager'' line then
        (None, self\<lparr>packager_start := Some now\<rparr>, [])
      else if prefix ''End Abaqus/Explicit Packager'' line then
        (let self' = self\<lparr>packager_end := Some now\<rparr> in
         case py_sub (packager_end self') (packager_start self') of
           Inl e \<Rightarrow> (Some e, self', [])
         | Inr package_time \<Rightarrow> (None, self', [PackagerRunTime package_time]))
      else if prefix ''Begin Abaqus/Explicit Analysis'' line then
        (None, self\<lparr>solver_start := Some now\<rparr>, [])
      else if prefix ''End Abaqus/Explicit Analysis'' line
              \<or> match_anywhere ''Abaqus/Explicit Analysis exited with an error'' line then
        (let self' = self\<lparr>solver_end := Some now\<rparr> in
         case py_sub (solver_end self') (solver_start self') of
           Inl e \<Rightarrow> (Some e, self', [])
         | Inr solver_time \<Rightarrow> (None, self', [SolverRunTime solver_time]))
      else (None, self, []))"

text \<open>The loop of \<^verbatim>\<open>_callAbaqus\<close> over the lines of the output, each with the time at which
  it is processed, when timing is on: an exception of \<^verbatim>\<open>processLine\<close> leaves the loop.\<close>

fun processLines ::
  "(real \<times> string) list \<Rightarrow> measureRunTimes \<Rightarrow> error option \<times> measureRunTimes \<times> report list" where
  "processLines [] self = (None, self, [])"
| "processLines ((now, line) # rest) self =
     (case processLine now line self of
        (Some e, self', out) \<Rightarrow> (Some e, self', out)
      | (None, self', out) \<Rightarrow>
          (case processLines rest self' of (exc, self'', out') \<Rightarrow> (exc, self'', out @ out')))"

section \<open>The line streamer: \<^verbatim>\<open>_outputStreamer\<close>\<close>

text \<open>
  \<^verbatim>\<open>stream.read(1)\<close> returns a string of one character, or the empty string at the end of
  the stream; \<open>last_read\<close> is the variable \<^verbatim>\<open>last\<close>. \<open>exited\<close> is
  \<^verbatim>\<open>proc.poll() is not None\<close>. The generator is the list of
  the strings it yields; a run that never ends has no value.
\<close>

definition read1 :: "string \<Rightarrow> string \<times> string" where
  "read1 s = (take 1 s, drop 1 s)"

definition newlines :: "string list" where
  "newlines = [[LF], [CR, LF], [CR]]"

partial_function (option) read_line ::
  "bool \<Rightarrow> string list \<Rightarrow> string \<Rightarrow> string \<Rightarrow> (string list \<times> string) option" where
  "read_line exited out last_read s =
     (if last_read \<notin> set newlines then
        (if last_read = [] \<and> exited then Some (out, s)
         else read_line exited (out @ [last_read]) (fst (read1 s)) (snd (read1 s)))
      else Some (out, s))"

partial_function (option) outputStreamer :: "bool \<Rightarrow> string \<Rightarrow> string list option" where
  "outputStreamer exited s =
     (if fst (read1 s) = [] \<and> exited then Some []
      else Option.bind (read_line exited [] (fst (read1 s)) (snd (read1 s)))
             (\<lambda>(out, s'). Option.bind (outputStreamer exited s')
                (\<lambda>rest. Some (concat out # rest))))"

text \<open>
  The pieces of the characters read, when every carriage return and every line feed read
  is a delimiter of its own. The last piece may lack a delimiter.
\<close>

definition is_delimiter :: "char \<Rightarrow> bool" where
  "is_delimiter c = (c = CR \<or> c = LF)"

function lines_of :: "string \<Rightarrow> string list" where
  "lines_of s =
     (if s = [] then []
      else takeWhile (\<lambda>c. \<not> is_delimiter c) s
             # lines_of (drop 1 (dropWhile (\<lambda>c. \<not> is_delimiter c) s)))"
  by pat_completeness auto
termination
proof (relation "measure length")
  show "wf (measure length)" by simp
next
  fix s :: string
  assume "s \<noteq> []"
  then have "0 < length s" by simp
  moreover have "length (dropWhile (\<lambda>c. \<not> is_delimiter c) s) \<le> length s"
    by (rule length_dropWhile_le)
  ultimately have "length (drop 1 (dropWhile (\<lambda>c. \<not> is_delimiter c) s)) < length s"
    by (simp only: length_drop)
  then show "(drop 1 (dropWhile (\<lambda>c. \<not> is_delimiter c) s), s) \<in> measure length"
    by simp
qed

declare lines_of.simps [simp del]

text \<open>
  \<^verbatim>\<open>_callAbaqus\<close> is the caller of the streamer. It opens the pipe with
  \<^verbatim>\<open>universal_newlines=True\<close> (line 140), so in Python 2 the stream is read in
  universal-newlines mode: what \<^verbatim>\<open>read\<close> returns has a line feed in place of every
  carriage return followed by a line feed, and of every other carriage return.
\<close>

fun universal_newlines :: "string \<Rightarrow> string" where
  "universal_newlines [] = []"
| "universal_newlines [c] = [if c = CR then LF else c]"
| "universal_newlines (c # d # s) =
     (if c = CR \<and> d = LF then LF # universal_newlines s
      else if c = CR then LF # universal_newlines (d # s)
      else c # universal_newlines (d # s))"

text \<open>The lines that the loop of \<^verbatim>\<open>_callAbaqus\<close> (line 143) receives for the bytes written
  by a process that has exited.\<close>

definition callAbaqus_lines :: "string \<Rightarrow> string list option" where
  "callAbaqus_lines bytes = outputStreamer True (universal_newlines bytes)"

text \<open>
  In the words of the specification: a complete line is a piece of the stream that a
  delimiter ends, where a line feed, a carriage return followed by a line feed, and a
  carriage return alone each are one delimiter; the delimiter is not part of the line.
  \<open>skip_delimiter\<close> removes the delimiter at the head of a stream, and
  \<open>unterminated_rest\<close> is what follows the last delimiter of the stream.
\<close>

fun skip_delimiter :: "string \<Rightarrow> string" where
  "skip_delimiter [] = []"
| "skip_delimiter [c] = []"
| "skip_delimiter (c # d # s) = (if c = CR \<and> d = LF then s else d # s)"

function complete_lines :: "string \<Rightarrow> string list" where
  "complete_lines s =
     (if dropWhile (\<lambda>c. \<not> is_delimiter c) s = [] then []
      else takeWhile (\<lambda>c. \<not> is_delimiter c) s
             # complete_lines (skip_delimiter (dropWhile (\<lambda>c. \<not> is_delimiter c) s)))"
  by pat_completeness auto
termination
proof (relation "measure length")
  show "wf (measure length)" by simp
next
  fix s :: string
  assume ne: "dropWhile (\<lambda>c. \<not> is_delimiter c) s \<noteq> []"
  have "length (skip_delimiter t) < length t" if "t \<noteq> []" for t :: string
    using that by (induction t rule: skip_delimiter.induct) simp_all
  from this [OF ne]
  have "length (skip_delimiter (dropWhile (\<lambda>c. \<not> is_delimiter c) s))
      < length (dropWhile (\<lambda>c. \<not> is_delimiter c) s)" .
  moreover have "length (dropWhile (\<lambda>c. \<not> is_delimiter c) s) \<le> length s"
    by (rule length_dropWhile_le)
  ultimately show "(skip_delimiter (dropWhile (\<lambda>c. \<not> is_delimiter c) s), s) \<in> measure length"
    by simp
qed

declare complete_lines.simps [simp del]

definition unterminated_rest :: "string \<Rightarrow> string" where
  "unterminated_rest s = rev (takeWhile (\<lambda>c. \<not> is_delimiter c) (rev s))"

section \<open>The parametric test matrix: \<^verbatim>\<open>ParametricMetaClass.__new__\<close>\<close>

text \<open>
  The dictionary \<^verbatim>\<open>parameters\<close> is the list of its items in iteration order (the keys are
  distinct), and a value is the text \<^verbatim>\<open>str(value)\<close> that the name and the substitution
  use. A test case is the list of the items of \<^verbatim>\<open>dict(izip(parameters, x))\<close>, taken in the
  same order.
\<close>

type_synonym parameters = "(string \<times> string list) list"

text \<open>\<^verbatim>\<open>itertools.product(*iterables)\<close>: the leftmost iterable varies slowest.\<close>

fun it_product :: "'a list list \<Rightarrow> 'a list list" where
  "it_product [] = [[]]"
| "it_product (xs # xss) = concat (map (\<lambda>x. map (\<lambda>ys. x # ys) (it_product xss)) xs)"

definition testCases :: "parameters \<Rightarrow> (string \<times> string) list list" where
  "testCases ps = map (\<lambda>x. zip (map fst ps) x) (it_product (map snd ps))"

text \<open>\<^verbatim>\<open>sep.join(xs)\<close>\<close>

fun join :: "string \<Rightarrow> string list \<Rightarrow> string" where
  "join sep [] = []"
| "join sep [x] = x"
| "join sep (x # y # ys) = x @ sep @ join sep (y # ys)"

text \<open>\<^verbatim>\<open>'%s_%s' % (key, value)\<close>\<close>

definition token :: "string \<times> string \<Rightarrow> string" where
  "token kv = fst kv @ ''_'' @ snd kv"

text \<open>\<^verbatim>\<open>re.sub('[.]', '', pn)\<close>\<close>

definition remove_periods :: "string \<Rightarrow> string" where
  "remove_periods pn = filter (\<lambda>c. c \<noteq> CHR ''.'') pn"

text \<open>The value stored under \<^verbatim>\<open>'name'\<close>, lines 693 to 697.\<close>

definition test_name :: "string \<Rightarrow> (string \<times> string) list \<Rightarrow> string" where
  "test_name baseName tc = baseName @ ''_'' @ remove_periods (join ''_'' (map token tc))"

definition test_names :: "string \<Rightarrow> parameters \<Rightarrow> string list" where
  "test_names baseName ps = map (test_name baseName) (testCases ps)"

text \<open>The part of a name after the base name with periods removed token by token: every
  token follows an underscore.\<close>

definition tail_of :: "(string \<times> string) list \<Rightarrow> string" where
  "tail_of tc =
     concat (map (\<lambda>kv. ''_'' @ remove_periods (fst kv) @ ''_'' @ remove_periods (snd kv)) tc)"

section \<open>Parametric substitution in a template\<close>

text \<open>
  \<^verbatim>\<open>re.search('.{0,}' + str(p) + '.{0,}=.{0,}$', data[line])\<close> on a line that
  \<^verbatim>\<open>readlines\<close> returned (a newline can only be its last character), for a parameter name
  without regular-expression metacharacters: the name occurs in the line and an \<open>=\<close>
  follows the occurrence.
\<close>

definition strip_newline :: "string \<Rightarrow> string" where
  "strip_newline line = (if line \<noteq> [] \<and> last line = LF then butlast line else line)"

fun search_param :: "string \<Rightarrow> string \<Rightarrow> bool" where
  "search_param p [] = False"
| "search_param p (c # cs) =
     ((prefix p (c # cs) \<and> CHR ''='' \<in> set (drop (length p) (c # cs))) \<or> search_param p cs)"

definition line_matches :: "string \<Rightarrow> string \<Rightarrow> bool" where
  "line_matches p line = search_param p (strip_newline line)"

text \<open>\<^verbatim>\<open>data[line].split('=')[0] + '= ' + str(parameters[p]) + '\n'\<close>\<close>

definition rewrite_line :: "string \<Rightarrow> string \<Rightarrow> string" where
  "rewrite_line line v = takeWhile (\<lambda>c. c \<noteq> CHR ''='') line @ ''= '' @ v @ [LF]"

text \<open>The loop \<^verbatim>\<open>for line in range(len(data))\<close> with its \<^verbatim>\<open>break\<close>, from index
  \<open>line\<close> on.\<close>

function substitute_from :: "string \<Rightarrow> string \<Rightarrow> string list \<Rightarrow> nat \<Rightarrow> string list" where
  "substitute_from p v data line =
     (if line < length data then
        (if line_matches p (data ! line) then data[line := rewrite_line (data ! line) v]
         else substitute_from p v data (Suc line))
      else data)"
  by pat_completeness auto
termination
  by (relation "measure (\<lambda>(p, v, data, line). length data - line)") auto

declare substitute_from.simps [simp del]

definition substitute :: "string \<Rightarrow> string \<Rightarrow> string list \<Rightarrow> string list" where
  "substitute p v data = substitute_from p v data 0"

text \<open>The loop \<^verbatim>\<open>for p in parameters.keys()\<close> over the parameters of one test case.\<close>

fun substitute_all :: "(string \<times> string) list \<Rightarrow> string list \<Rightarrow> string list" where
  "substitute_all [] data = data"
| "substitute_all ((p, v) # ps) data = substitute_all ps (substitute p v data)"

section \<open>Generated files of a parametric test case and their removal\<close>

text \<open>
  The file system is the set of the paths of its regular files, with the working directory
  of the process. A step returns the exception it raises (if any) and the state it leaves.
\<close>

record fs_state =
  files :: "string set"
  cwd :: string

type_synonym fs_step = "fs_state \<Rightarrow> error option \<times> fs_state"

text \<open>\<^verbatim>\<open>os.remove(path)\<close>: a relative path is resolved against the working directory;
  a missing file raises \<^verbatim>\<open>OSError\<close>.\<close>

definition os_remove :: "string \<Rightarrow> fs_step" where
  "os_remove path st =
     (let p = path_join (cwd st) path
      in if p \<in> files st then (None, st\<lparr>files := files st - {p}\<rparr>)
         else (Some (OSError p), st))"

text \<open>\<^verbatim>\<open>shutil.copyfile(os.path.join(os.getcwd(), src), os.path.join(os.getcwd(), dst))\<close>\<close>

definition copyfile :: "string \<Rightarrow> string \<Rightarrow> fs_step" where
  "copyfile src dst st =
     (if path_join (cwd st) src \<in> files st
      then (None, st\<lparr>files := insert (path_join (cwd st) dst) (files st)\<rparr>)
      else (Some (IOError (path_join (cwd st) src)), st))"

text \<open>\<^verbatim>\<open>os.path.dirname\<close> of \<^verbatim>\<open>posixpath\<close>, the directory that
  \<^verbatim>\<open>os.chdir(os.pardir)\<close> moves to.\<close>

definition dirname :: "string \<Rightarrow> string" where
  "dirname p =
     (let head = rev (dropWhile (\<lambda>c. c \<noteq> CHR ''/'') (rev p))
      in if head \<noteq> [] \<and> set head \<noteq> {CHR ''/''}
         then rev (dropWhile (\<lambda>c. c = CHR ''/'') (rev head))
         else head)"

text \<open>\<^verbatim>\<open>open(os.path.join(os.getcwd(), path), 'w')\<close> creates the file.\<close>

definition open_w :: "string \<Rightarrow> fs_step" where
  "open_w path st = (None, st\<lparr>files := insert (path_join (cwd st) path) (files st)\<rparr>)"

definition os_chdir :: "string \<Rightarrow> fs_step" where
  "os_chdir d st = (None, st\<lparr>cwd := d\<rparr>)"

text \<open>Statements in sequence, and \<^verbatim>\<open>try: body finally: handler\<close>: the handler always runs,
  and an exception of the handler replaces the one of the body.\<close>

definition then_step :: "fs_step \<Rightarrow> fs_step \<Rightarrow> fs_step" where
  "then_step f g st = (case f st of (Some e, st') \<Rightarrow> (Some e, st') | (None, st') \<Rightarrow> g st')"

definition try_finally :: "fs_step \<Rightarrow> fs_step \<Rightarrow> fs_step" where
  "try_finally body handler st =
     (case body st of
        (exc, st') \<Rightarrow>
          (case handler st' of (Some e, st'') \<Rightarrow> (Some e, st'') | (None, st'') \<Rightarrow> (exc, st'')))"

definition skip_step :: fs_step where
  "skip_step st = (None, st)"

text \<open>
  \<^verbatim>\<open>_runModel\<close> on the local host, lines 422 to 459, as far as the files of the job and
  the working directory go: the input deck is copied to \<^verbatim>\<open>testOutput\<close>, and the solver runs with
  \<^verbatim>\<open>testOutput\<close> as working directory. The run of the solver through \<^verbatim>\<open>_callAbaqus\<close> is the
  parameter \<open>solver\<close>.
\<close>

definition runModel :: "string \<Rightarrow> fs_step \<Rightarrow> fs_step" where
  "runModel jobName solver =
     then_step (copyfile (jobName @ ''.inp'') (path_join ''testOutput'' (jobName @ ''.inp'')))
       (\<lambda>st. then_step (os_chdir (path_join (cwd st) ''testOutput''))
          (then_step solver (\<lambda>st'. os_chdir (dirname (cwd st')) st')) st)"

text \<open>The \<^verbatim>\<open>finally\<close> block of the generated test function, lines 668 to 672.\<close>

definition cleanup :: "string \<Rightarrow> bool \<Rightarrow> fs_step" where
  "cleanup jobName pythonScriptForModel =
     then_step (os_remove (jobName @ ''.inp''))
       (then_step (os_remove (jobName @ ''_expected.py''))
          (if pythonScriptForModel then os_remove (jobName @ ''.py'') else skip_step))"

text \<open>
  The generated test function, lines 575 to 672. The substitutions rewrite the contents of
  the copies and leave the set of files as it is; the log file is opened for writing. \<open>script\<close> is the run of the
  model-generation script, \<open>solver\<close> the run of the solver and \<open>post\<close> the
  post-processing and the assertions; \<open>useExistingResults\<close> is the option of that name.
\<close>

definition test_body :: "string \<Rightarrow> string \<Rightarrow> bool \<Rightarrow> bool \<Rightarrow> fs_step \<Rightarrow> fs_step \<Rightarrow> fs_step \<Rightarrow> fs_step" where
  "test_body jobName baseName pythonScriptForModel useExistingResults script solver post =
     then_step
       (if pythonScriptForModel then copyfile (baseName @ ''.py'') (jobName @ ''.py'')
        else copyfile (baseName @ ''.inp'') (jobName @ ''.inp''))
       (then_step (copyfile (baseName @ ''_expected.py'') (jobName @ ''_expected.py''))
          (then_step (open_w (path_join ''testOutput'' (jobName @ ''.log'')))
             (then_step (if pythonScriptForModel then script else skip_step)
                (then_step (if useExistingResults then skip_step else runModel jobName solver)
                   post))))"

definition parametric_test ::
  "string \<Rightarrow> string \<Rightarrow> bool \<Rightarrow> bool \<Rightarrow> fs_step \<Rightarrow> fs_step \<Rightarrow> fs_step \<Rightarrow> fs_step" where
  "parametric_test jobName baseName pythonScriptForModel useExistingResults script solver post =
     try_finally
       (test_body jobName baseName pythonScriptForModel useExistingResults script solver post)
       (cleanup jobName pythonScriptForModel)"

section \<open>The expiration time of a job\<close>

text \<open>
  \<open>options\<close> is the module-level object of the run; only the field that the job life cycle
  writes is named, the others are the extension of the record. \<^verbatim>\<open>options.expiration\<close> is an
  integer or \<^verbatim>\<open>None\<close>. In Python 2 \<^verbatim>\<open>None < 0\<close> is true.
\<close>

record options =
  expiration :: "int option"

definition py_negative :: "int option \<Rightarrow> bool" where
  "py_negative x = (case x of None \<Rightarrow> True | Some n \<Rightarrow> n < 0)"

text \<open>Lines 334 to 338 (and 625 to 629), with the \<^verbatim>\<open>parameters\<close> dictionary \<open>para\<close> of the
  job's expected-results file.\<close>

definition set_expiration :: "(string \<rightharpoonup> int) \<Rightarrow> 'a options_scheme \<Rightarrow> 'a options_scheme" where
  "set_expiration para opts =
     (let opts1 = (case para ''expiration'' of
                     Some e \<Rightarrow> opts\<lparr>expiration := Some e\<rparr>
                   | None \<Rightarrow> opts)
      in if py_negative (expiration opts1) then opts1\<lparr>expiration := None\<rparr> else opts1)"

text \<open>The jobs of one invocation run one after the other on the same \<open>options\<close>. The result
  lists, for each job, the value \<^verbatim>\<open>expiration=options.expiration\<close> handed to \<^verbatim>\<open>_runModel\<close>.\<close>

fun run_jobs :: "(string \<rightharpoonup> int) list \<Rightarrow> 'a options_scheme \<Rightarrow> int option list \<times> 'a options_scheme" where
  "run_jobs [] opts = ([], opts)"
| "run_jobs (para # rest) opts =
     (let opts' = set_expiration para opts;
          (exps, opts'') = run_jobs rest opts'
      in (expiration opts' # exps, opts''))"

text \<open>The expiration of a job run alone from the run-wide default.\<close>

definition job_expiration :: "(string \<rightharpoonup> int) \<Rightarrow> 'a options_scheme \<Rightarrow> int option" where
  "job_expiration para opts = expiration (set_expiration para opts)"

section \<open>Properties of the result comparator\<close>

lemma bind_res_simps [simp]:
  "bind_res (Inl e) f = Inl e"
  "bind_res (Inr x) f = f x"
  by (simp_all add: bind_res_def)

lemma lookup_Some: "r k = Some v \<Longrightarrow> lookup r k = Inr v"
  by (simp add: lookup_def)

lemma lookup_None: "r k = None \<Longrightarrow> lookup r k = Inl (KeyError k)"
  by (simp add: lookup_def)






lemma sublist_results_message: "sublist p (results_message p)"
  using sublist_appendI [of p
    "''No results file provided by process_results.py. Looking for '' @ [CHR 0x22]" "[CHR 0x22]"]
  by (simp add: results_message_def)

text \<open>
  Claim C8. When no external assertion function is given and the structured results file is
  not there, the job fails with the message of \<^verbatim>\<open>self.fail\<close>, which contains the path
  \<^verbatim>\<open><cwd>/testOutput/<jobName>_results.py\<close> that was looked for.
\<close>

theorem missing_results_file_fails:
  assumes "path_join (path_join wd ''testOutput'') (jobName @ ''_results.py'') \<notin> fs"
  shows "\<exists>msg. runAssertionsOnResults fs wd import_results jobName None = Inl (TestFailure msg)
           \<and> msg = ''No results file provided by process_results.py. Looking for '' @ [CHR 0x22]
                 @ path_join (path_join wd ''testOutput'') (jobName @ ''_results.py'') @ [CHR 0x22]
           \<and> sublist (path_join (path_join wd ''testOutput'') (jobName @ ''_results.py'')) msg"
  using assms sublist_results_message
  by (simp add: runAssertionsOnResults_def Let_def results_message_def)

theorem missing_results_file_fails_witness:
  "runAssertionsOnResults {''/w/job.inp''} ''/w'' (\<lambda>_. Inr []) ''job'' None
     = Inl (TestFailure (''No results file provided by process_results.py. Looking for ''
          @ [CHR 0x22] @ ''/w/testOutput/job_results.py'' @ [CHR 0x22]))"
  using missing_results_file_fails [of "''/w''" "''job''" "{''/w/job.inp''}" "\<lambda>_. Inr []"]
  by (simp add: path_join_def suffix_to_prefix)

lemma check_elements_first:
  "check_element r 0 = Inl e \<Longrightarrow> 0 < n \<Longrightarrow> check_elements r [0 ..< n] = Inl e"
  by (simp add: upt_conv_Cons)

text \<open>
  Claim C10, as amended. For a record whose computed value is a non-empty list or tuple, the
  comparator reads the reference value and the tolerance at the first element, so the record
  is never vacuously satisfied: without a reference value it fails with the lookup error of
  \<^verbatim>\<open>r['referenceValue']\<close>; with a reference value and without a tolerance it fails with the
  lookup error of \<^verbatim>\<open>r['tolerance']\<close>, unless indexing the reference value at 0 already
  raised.
\<close>

theorem sequence_record_reads_fields:
  assumes "r ''computedValue'' = Some cv" and "has_iter cv" and "py_items cv \<noteq> []"
  shows "(r ''referenceValue'' = None \<longrightarrow> check_record r = Inl (KeyError ''referenceValue''))
       \<and> (\<forall>rvs. r ''referenceValue'' = Some rvs \<and> r ''tolerance'' = None \<longrightarrow>
             check_record r = (case py_index rvs 0 of Inl e \<Rightarrow> Inl e
                               | Inr _ \<Rightarrow> Inl (KeyError ''tolerance'')))
       \<and> (r ''referenceValue'' = None \<or> r ''tolerance'' = None \<longrightarrow> check_record r \<noteq> Inr ())"
proof -
  have n: "0 < length (py_items cv)" using assms(3) by simp
  have idx: "py_index cv 0 = Inr (py_items cv ! 0)"
    using assms(2) n by (cases cv) simp_all
  have a: "check_record r = Inl (KeyError ''referenceValue'')" if "r ''referenceValue'' = None"
  proof -
    have "check_element r 0 = Inl (KeyError ''referenceValue'')"
      using that assms(1) idx by (simp add: check_element_def lookup_Some lookup_None)
    then show ?thesis
      using assms(1,2) n by (simp add: check_record_def lookup_Some check_elements_first)
  qed
  have b: "check_record r = (case py_index rvs 0 of Inl e \<Rightarrow> Inl e
                               | Inr _ \<Rightarrow> Inl (KeyError ''tolerance''))"
    if "r ''referenceValue'' = Some rvs" "r ''tolerance'' = None" for rvs
  proof -
    have "check_element r 0 = (case py_index rvs 0 of Inl e \<Rightarrow> Inl e
                               | Inr _ \<Rightarrow> Inl (KeyError ''tolerance''))"
      using that assms(1) idx
      by (simp add: check_element_def lookup_Some lookup_None split: sum.splits)
    moreover have "\<exists>e. (case py_index rvs 0 of Inl e \<Rightarrow> Inl e
                               | Inr _ \<Rightarrow> Inl (KeyError ''tolerance'')) = (Inl e :: error + unit)"
      by (simp split: sum.splits)
    ultimately show ?thesis
      using assms(1,2) n by (auto simp add: check_record_def lookup_Some check_elements_first)
  qed
  have c: "check_record r \<noteq> Inr ()" if "r ''referenceValue'' = None \<or> r ''tolerance'' = None"
  proof (cases "r ''referenceValue''")
    case None
    then show ?thesis using a by simp
  next
    case (Some rvs)
    then have "r ''tolerance'' = None" using that by simp
    then show ?thesis using b [OF Some] by (simp split: sum.splits)
  qed
  show ?thesis using a b c by blast
qed

theorem sequence_record_reads_fields_witness:
  "check_record [''computedValue'' \<mapsto> PyList [PyNum 1]] = Inl (KeyError ''referenceValue'')
   \<and> check_record [''computedValue'' \<mapsto> PyList [PyNum 1], ''referenceValue'' \<mapsto> PyList [PyNum 1]]
       = Inl (KeyError ''tolerance'')
   \<and> check_record [''computedValue'' \<mapsto> PyList [PyNum 1], ''referenceValue'' \<mapsto> PyNum 1]
       = Inl TypeError"
  using sequence_record_reads_fields [of "[''computedValue'' \<mapsto> PyList [PyNum 1]]" "PyList [PyNum 1]"]
   sequence_record_reads_fields [of "[''computedValue'' \<mapsto> PyList [PyNum 1], ''referenceValue'' \<mapsto> PyList [PyNum 1]]" "PyList [PyNum 1]"]
   sequence_record_reads_fields [of "[''computedValue'' \<mapsto> PyList [PyNum 1], ''referenceValue'' \<mapsto> PyNum 1]" "PyList [PyNum 1]"]
  by simp

text \<open>Claim C10 as stated fails for an empty computed sequence: the loop body never runs,
  no field is read and the record passes.\<close>

theorem empty_sequence_counterexample:
  "has_iter (PyList []) \<and> [''computedValue'' \<mapsto> PyList []] ''referenceValue'' = None
   \<and> [''computedValue'' \<mapsto> PyList []] ''tolerance'' = None
   \<and> check_record [''computedValue'' \<mapsto> PyList []] = Inr ()"
  by (simp add: check_record_def lookup_def)

section \<open>Properties of the run-time instrumentation\<close>

lemma processLines_append:
  "processLines (xs @ ys) self =
     (case processLines xs self of
        (Some e, s, out) \<Rightarrow> (Some e, s, out)
      | (None, s, out) \<Rightarrow> (case processLines ys s of (exc, s', out') \<Rightarrow> (exc, s', out @ out')))"
  by (induction xs arbitrary: self) (auto split: prod.splits option.splits)

lemma Compile_start_step:
  "\<not> prefix ''Begin Linking'' line \<Longrightarrow>
     Compile_start (fst (snd (processLine now line self))) = Compile_start self"
  by (simp add: processLine_def Let_def split: sum.splits)

lemma packager_start_step:
  "\<not> prefix ''Begin Abaqus/Explicit Packager'' line \<Longrightarrow>
     packager_start (fst (snd (processLine now line self))) = packager_start self"
  by (simp add: processLine_def Let_def split: sum.splits)

lemma solver_start_step:
  "\<not> prefix ''Begin Abaqus/Explicit Analysis'' line \<Longrightarrow>
     solver_start (fst (snd (processLine now line self))) = solver_start self"
  by (simp add: processLine_def Let_def split: sum.splits)

lemma Compile_start_stream:
  "\<forall>x \<in> set pre. \<not> prefix ''Begin Linking'' (snd x) \<Longrightarrow>
     Compile_start (fst (snd (processLines pre self))) = Compile_start self"
proof (induction pre arbitrary: self)
  case Nil
  then show ?case by simp
next
  case (Cons x pre)
  obtain now line where x: "x = (now, line)" by (cases x)
  obtain exc s out where p: "processLine now line self = (exc, s, out)" by (cases "processLine now line self")
  have "Compile_start s = Compile_start self"
    using Compile_start_step [of line now self] Cons.prems x p by simp
  moreover have "Compile_start (fst (snd (processLines pre s))) = Compile_start s"
    using Cons by simp
  ultimately show ?case
    using x p by (cases exc) (auto split: prod.splits)
qed

lemma packager_start_stream:
  "\<forall>x \<in> set pre. \<not> prefix ''Begin Abaqus/Explicit Packager'' (snd x) \<Longrightarrow>
     packager_start (fst (snd (processLines pre self))) = packager_start self"
proof (induction pre arbitrary: self)
  case Nil
  then show ?case by simp
next
  case (Cons x pre)
  obtain now line where x: "x = (now, line)" by (cases x)
  obtain exc s out where p: "processLine now line self = (exc, s, out)"
    by (cases "processLine now line self")
  have "packager_start s = packager_start self"
    using packager_start_step [of line now self] Cons.prems x p by simp
  moreover have "packager_start (fst (snd (processLines pre s))) = packager_start s"
    using Cons by simp
  ultimately show ?case
    using x p by (cases exc) (auto split: prod.splits)
qed

lemma solver_start_stream:
  "\<forall>x \<in> set pre. \<not> prefix ''Begin Abaqus/Explicit Analysis'' (snd x) \<Longrightarrow>
     solver_start (fst (snd (processLines pre self))) = solver_start self"
proof (induction pre arbitrary: self)
  case Nil
  then show ?case by simp
next
  case (Cons x pre)
  obtain now line where x: "x = (now, line)" by (cases x)
  obtain exc s out where p: "processLine now line self = (exc, s, out)"
    by (cases "processLine now line self")
  have "solver_start s = solver_start self"
    using solver_start_step [of line now self] Cons.prems x p by simp
  moreover have "solver_start (fst (snd (processLines pre s))) = solver_start s"
    using Cons by simp
  ultimately show ?case
    using x p by (cases exc) (auto split: prod.splits)
qed

lemma end_linking_step:
  "prefix ''End Linking'' line \<Longrightarrow> Compile_start self = None \<Longrightarrow>
     processLine now line self = (Some TypeError, self\<lparr>Compile_end := Some now\<rparr>, [])"
  by (auto simp: processLine_def Let_def prefix_def)

lemma end_packager_step:
  "prefix ''End Abaqus/Explicit Packager'' line \<Longrightarrow> packager_start self = None \<Longrightarrow>
     processLine now line self = (Some TypeError, self\<lparr>packager_end := Some now\<rparr>, [])"
  by (auto simp: processLine_def Let_def prefix_def)

lemma end_solver_step:
  "prefix ''End Abaqus/Explicit Analysis'' line \<Longrightarrow> solver_start self = None \<Longrightarrow>
     processLine now line self = (Some TypeError, self\<lparr>solver_end := Some now\<rparr>, [])"
  by (auto simp: processLine_def Let_def prefix_def)

lemma stream_raises:
  assumes "processLines pre self = (None, s1, out)"
    and "processLine now line s1 = (Some e, s2, [])"
  shows "processLines (pre @ (now, line) # rest) self = (Some e, s2, out)"
  using assms by (simp add: processLines_append)

text \<open>
  Claim C3, as amended. On a fresh timer, a phase-end marker line (compile, package or solve)
  that no start marker of the same phase precedes in the stream produces no duration report
  and raises \<^verbatim>\<open>TypeError\<close> (the end time minus the unset start), which ends the processing of
  the stream: the reports are those of the lines before it, and the lines after it are not
  processed.
\<close>

theorem end_marker_without_start_raises:
  assumes "processLines pre init_measureRunTimes = (None, self1, out)"
  shows "((\<forall>x \<in> set pre. \<not> prefix ''Begin Linking'' (snd x)) \<and> prefix ''End Linking'' line
            \<longrightarrow> processLines (pre @ (now, line) # rest) init_measureRunTimes
                  = (Some TypeError, self1\<lparr>Compile_end := Some now\<rparr>, out))
       \<and> ((\<forall>x \<in> set pre. \<not> prefix ''Begin Abaqus/Explicit Packager'' (snd x))
             \<and> prefix ''End Abaqus/Explicit Packager'' line
            \<longrightarrow> processLines (pre @ (now, line) # rest) init_measureRunTimes
                  = (Some TypeError, self1\<lparr>packager_end := Some now\<rparr>, out))
       \<and> ((\<forall>x \<in> set pre. \<not> prefix ''Begin Abaqus/Explicit Analysis'' (snd x))
             \<and> prefix ''End Abaqus/Explicit Analysis'' line
            \<longrightarrow> processLines (pre @ (now, line) # rest) init_measureRunTimes
                  = (Some TypeError, self1\<lparr>solver_end := Some now\<rparr>, out))"
proof -
  have s1: "self1 = fst (snd (processLines pre init_measureRunTimes))"
    using assms by simp
  have c: "Compile_start self1 = None" if "\<forall>x \<in> set pre. \<not> prefix ''Begin Linking'' (snd x)"
    using Compile_start_stream [OF that, of init_measureRunTimes] s1
    by (simp add: init_measureRunTimes_def)
  have p: "packager_start self1 = None"
    if "\<forall>x \<in> set pre. \<not> prefix ''Begin Abaqus/Explicit Packager'' (snd x)"
    using packager_start_stream [OF that, of init_measureRunTimes] s1
    by (simp add: init_measureRunTimes_def)
  have s: "solver_start self1 = None"
    if "\<forall>x \<in> set pre. \<not> prefix ''Begin Abaqus/Explicit Analysis'' (snd x)"
    using solver_start_stream [OF that, of init_measureRunTimes] s1
    by (simp add: init_measureRunTimes_def)
  show ?thesis
    using c p s stream_raises [OF assms] end_linking_step end_packager_step end_solver_step
    by blast
qed

theorem end_marker_without_start_raises_witness:
  "processLines [(1, ''Abaqus JOB x''), (2, ''End Linking''), (3, ''Begin Linking'')]
      init_measureRunTimes
     = (Some TypeError, init_measureRunTimes\<lparr>Compile_end := Some 2\<rparr>, [])
   \<and> processLines [(1, ''Abaqus JOB x''), (2, ''End Abaqus/Explicit Packager'')]
      init_measureRunTimes
     = (Some TypeError, init_measureRunTimes\<lparr>packager_end := Some 2\<rparr>, [])
   \<and> processLines [(1, ''Abaqus JOB x''), (2, ''End Abaqus/Explicit Analysis'')]
      init_measureRunTimes
     = (Some TypeError, init_measureRunTimes\<lparr>solver_end := Some 2\<rparr>, [])"
  using end_marker_without_start_raises [of "[(1, ''Abaqus JOB x'')]" init_measureRunTimes "[]"
      "''End Linking''" 2 "[(3, ''Begin Linking'')]"]
    end_marker_without_start_raises [of "[(1, ''Abaqus JOB x'')]" init_measureRunTimes "[]"
      "''End Abaqus/Explicit Packager''" 2 "[]"]
    end_marker_without_start_raises [of "[(1, ''Abaqus JOB x'')]" init_measureRunTimes "[]"
      "''End Abaqus/Explicit Analysis''" 2 "[]"]
  by (simp add: processLine_def match_anywhere_def init_measureRunTimes_def sublist_code(3))

text \<open>Claim C3 as stated fails: an end marker as the first line of the stream raises.\<close>

theorem end_marker_raises_counterexample:
  "fst (processLine 2 ''End Linking'' init_measureRunTimes) = Some TypeError"
  by (simp add: processLine_def init_measureRunTimes_def)

section \<open>Properties of the line streamer\<close>

lemma in_newlines: "[c] \<in> set newlines \<longleftrightarrow> is_delimiter c"
  by (auto simp: newlines_def is_delimiter_def)

lemma fst_read1_empty: "fst (read1 s) = [] \<longleftrightarrow> s = []"
  by (cases s) (simp_all add: read1_def)

text \<open>The inner loop on an exited process reads up to the next carriage return or line
  feed, or to the end of the stream.\<close>

lemma read_line_exited:
  "read_line True out (fst (read1 s)) (snd (read1 s))
     = Some (out @ map (\<lambda>c. [c]) (takeWhile (\<lambda>c. \<not> is_delimiter c) s),
             drop 1 (dropWhile (\<lambda>c. \<not> is_delimiter c) s))"
proof (induction s arbitrary: out)
  case Nil
  show ?case by (subst read_line.simps) (simp add: newlines_def read1_def)
next
  case (Cons c s)
  show ?case
  proof (cases "is_delimiter c")
    case True
    then show ?thesis by (subst read_line.simps) (simp add: in_newlines read1_def)
  next
    case False
    have "read_line True out [c] s
        = read_line True (out @ [[c]]) (fst (read1 s)) (snd (read1 s))"
      using False by (subst read_line.simps) (simp add: in_newlines)
    then show ?thesis
      using False Cons [of "out @ [[c]]"] by (simp add: read1_def)
  qed
qed

lemma concat_singletons: "concat (map (\<lambda>c. [c]) xs) = xs"
  by (induction xs) simp_all

text \<open>On an exited process the streamer ends on every finite stream, and yields the pieces
  between delimiters, where every carriage return and every line feed is a delimiter.\<close>

lemma outputStreamer_exited: "outputStreamer True s = Some (lines_of s)"
proof (induction s rule: lines_of.induct)
  case (1 s)
  show ?case
  proof (cases "s = []")
    case True
    then show ?thesis
      by (subst outputStreamer.simps, subst lines_of.simps) (simp add: fst_read1_empty)
  next
    case False
    then show ?thesis
      using "1.IH" [OF False]
      by (subst outputStreamer.simps, subst lines_of.simps)
         (simp add: fst_read1_empty read_line_exited concat_singletons)
  qed
qed

text \<open>The translation of universal-newlines mode, piece by piece.\<close>

lemma universal_newlines_Cons:
  "c \<noteq> CR \<Longrightarrow> universal_newlines (c # t) = c # universal_newlines t"
  by (cases t) simp_all

lemma universal_newlines_prefix:
  "\<forall>c \<in> set pre. \<not> is_delimiter c \<Longrightarrow>
     universal_newlines (pre @ t) = pre @ universal_newlines t"
  by (induction pre) (simp_all add: universal_newlines_Cons is_delimiter_def)

lemma universal_newlines_delimiter:
  "is_delimiter d \<Longrightarrow>
     universal_newlines (d # t) = LF # universal_newlines (skip_delimiter (d # t))"
  by (cases t) (auto simp: is_delimiter_def)

lemma takeWhile_all: "\<forall>c \<in> set s. P c \<Longrightarrow> takeWhile P s = s"
  by simp

lemma dropWhile_all: "\<forall>c \<in> set s. P c \<Longrightarrow> dropWhile P s = []"
  by simp

lemma lines_of_Nil: "lines_of [] = []"
  by (subst lines_of.simps) simp

lemma lines_of_no_delimiter:
  assumes "\<forall>c \<in> set s. \<not> is_delimiter c"
  shows "lines_of s = (if s = [] then [] else [s])"
proof (cases "s = []")
  case True
  then show ?thesis by (simp add: lines_of_Nil)
next
  case False
  have "lines_of s = takeWhile (\<lambda>c. \<not> is_delimiter c) s
      # lines_of (drop 1 (dropWhile (\<lambda>c. \<not> is_delimiter c) s))"
    using False by (subst lines_of.simps) simp
  also have "\<dots> = s # lines_of (drop 1 [])"
    by (simp only: takeWhile_all [OF assms] dropWhile_all [OF assms])
  finally show ?thesis using False by (simp add: lines_of_Nil)
qed

lemma lines_of_line:
  assumes "\<forall>c \<in> set pre. \<not> is_delimiter c"
  shows "lines_of (pre @ LF # u) = pre # lines_of u"
proof -
  have "takeWhile (\<lambda>c. \<not> is_delimiter c) (pre @ LF # u) = pre"
    using assms by (simp add: is_delimiter_def)
  moreover have "dropWhile (\<lambda>c. \<not> is_delimiter c) (pre @ LF # u) = LF # u"
    using assms by (simp add: is_delimiter_def)
  ultimately show ?thesis
    by (subst lines_of.simps) simp
qed

lemma unterminated_rest_no_delimiter:
  assumes "\<forall>c \<in> set s. \<not> is_delimiter c"
  shows "unterminated_rest s = s"
proof -
  have "\<forall>c \<in> set (rev s). \<not> is_delimiter c" using assms by simp
  then have "takeWhile (\<lambda>c. \<not> is_delimiter c) (rev s) = rev s" by (rule takeWhile_all)
  then show ?thesis by (simp only: unterminated_rest_def rev_rev_ident)
qed

lemma unterminated_rest_delimiter:
  assumes "is_delimiter d"
  shows "unterminated_rest (pre @ d # t) = unterminated_rest t"
proof (cases "\<forall>c \<in> set t. \<not> is_delimiter c")
  case True
  then have "takeWhile (\<lambda>c. \<not> is_delimiter c) (rev t @ d # rev pre)
      = rev t @ takeWhile (\<lambda>c. \<not> is_delimiter c) (d # rev pre)"
    by (intro takeWhile_append2) auto
  also have "\<dots> = rev t"
    using assms by simp
  finally have "unterminated_rest (pre @ d # t) = t"
    by (simp only: unterminated_rest_def rev_append rev.simps append_assoc append_Cons
        append_Nil rev_rev_ident)
  then show ?thesis
    using unterminated_rest_no_delimiter [OF True] by simp
next
  case False
  then obtain c where c: "c \<in> set (rev t)" "\<not> \<not> is_delimiter c" by auto
  have "takeWhile (\<lambda>c. \<not> is_delimiter c) (rev t @ d # rev pre)
      = takeWhile (\<lambda>c. \<not> is_delimiter c) (rev t)"
    using c by (rule takeWhile_append1)
  then show ?thesis by (simp add: unterminated_rest_def)
qed

lemma unterminated_rest_skip:
  assumes "is_delimiter d"
  shows "unterminated_rest (skip_delimiter (d # t)) = unterminated_rest (d # t)"
proof (cases t)
  case Nil
  then show ?thesis using assms by (simp add: unterminated_rest_def)
next
  case (Cons e r)
  show ?thesis
  proof (cases "d = CR \<and> e = LF")
    case True
    have "unterminated_rest ([d] @ e # r) = unterminated_rest r"
      using True by (intro unterminated_rest_delimiter) (simp add: is_delimiter_def)
    then show ?thesis using True Cons by simp
  next
    case False
    have "unterminated_rest ([] @ d # t) = unterminated_rest t"
      using assms by (rule unterminated_rest_delimiter)
    then show ?thesis using False Cons by auto
  qed
qed

lemma lines_of_universal_newlines:
  "lines_of (universal_newlines s)
     = complete_lines s @ (if unterminated_rest s = [] then [] else [unterminated_rest s])"
proof (induction s rule: complete_lines.induct)
  case (1 s)
  let ?pre = "takeWhile (\<lambda>c. \<not> is_delimiter c) s"
  let ?suf = "dropWhile (\<lambda>c. \<not> is_delimiter c) s"
  have s: "s = ?pre @ ?suf" by simp
  have pre: "\<forall>c \<in> set ?pre. \<not> is_delimiter c" by (auto dest: set_takeWhileD)
  show ?case
  proof (cases "?suf = []")
    case True
    then have nd: "\<forall>c \<in> set s. \<not> is_delimiter c"
      by simp
    then have "universal_newlines s = s"
      using universal_newlines_prefix [of s "[]"] by simp
    then show ?thesis
      using True nd
      by (subst complete_lines.simps)
         (simp add: lines_of_no_delimiter unterminated_rest_no_delimiter)
  next
    case False
    then obtain d t where suf: "?suf = d # t" by (cases ?suf) auto
    have d: "is_delimiter d"
      using hd_dropWhile [of "\<lambda>c. \<not> is_delimiter c" s] False suf by simp
    have "universal_newlines s = ?pre @ universal_newlines (d # t)"
      using universal_newlines_prefix [OF pre, of ?suf] s suf by simp
    also have "\<dots> = ?pre @ LF # universal_newlines (skip_delimiter (d # t))"
      using universal_newlines_delimiter [OF d] by simp
    finally have "lines_of (universal_newlines s)
        = ?pre # lines_of (universal_newlines (skip_delimiter (d # t)))"
      using lines_of_line [OF pre] by simp
    moreover have "lines_of (universal_newlines (skip_delimiter (d # t)))
        = complete_lines (skip_delimiter (d # t))
          @ (if unterminated_rest (skip_delimiter (d # t)) = [] then []
             else [unterminated_rest (skip_delimiter (d # t))])"
      using "1.IH" [OF False] suf by simp
    moreover have "unterminated_rest (skip_delimiter (d # t)) = unterminated_rest s"
    proof -
      have "unterminated_rest s = unterminated_rest (?pre @ d # t)" using s suf by simp
      also have "\<dots> = unterminated_rest t" by (rule unterminated_rest_delimiter [OF d])
      also have "\<dots> = unterminated_rest ([] @ d # t)"
        by (rule unterminated_rest_delimiter [OF d, symmetric])
      finally show ?thesis using unterminated_rest_skip [OF d, of t] by simp
    qed
    moreover have "complete_lines s = ?pre # complete_lines (skip_delimiter (d # t))"
      using False suf by (subst complete_lines.simps) simp
    ultimately show ?thesis by simp
  qed
qed

text \<open>
  Claim C9, as amended. For every finite byte stream of a process that has exited, the
  streamer ends and yields the complete lines of the stream with the delimiter stripped,
  where a line feed, a carriage return followed by a line feed, and a carriage return each
  are a single delimiter (a carriage return followed by a line feed ends one line and gives
  no empty line); when bytes follow the last delimiter, they are yielded as one more line
  after the complete ones.
\<close>

theorem streamer_yields_lines:
  "callAbaqus_lines bytes
     = Some (complete_lines bytes
             @ (if unterminated_rest bytes = [] then [] else [unterminated_rest bytes]))"
  by (simp add: callAbaqus_lines_def outputStreamer_exited lines_of_universal_newlines)

theorem streamer_yields_lines_witness:
  "callAbaqus_lines [CHR ''a'', CR, LF, CHR ''b'', LF, CHR ''c'', CR, LF] = Some [''a'', ''b'', ''c'']
   \<and> callAbaqus_lines [CHR ''a'', CR, CHR ''b'', LF, LF] = Some [''a'', ''b'', '''']"
  using streamer_yields_lines [of "[CHR ''a'', CR, LF, CHR ''b'', LF, CHR ''c'', CR, LF]"]
    streamer_yields_lines [of "[CHR ''a'', CR, CHR ''b'', LF, LF]"]
  by (simp add: complete_lines.simps unterminated_rest_def is_delimiter_def)

text \<open>Claim C9 as stated fails for a stream that does not end with a delimiter: the bytes
  after the last delimiter are yielded although they are not a complete line.\<close>

theorem unterminated_rest_counterexample:
  "callAbaqus_lines [CHR ''a'', LF, CHR ''b''] = Some [''a'', ''b'']
   \<and> complete_lines [CHR ''a'', LF, CHR ''b''] = [''a'']"
  by (simp add: callAbaqus_lines_def outputStreamer_exited lines_of.simps
      complete_lines.simps is_delimiter_def)

section \<open>Properties of the removal of generated files\<close>

text \<open>A test whose assertions fail after a normal run of the solver: the generated input
  deck and expected-results file are removed.\<close>

lemma cleanup_after_failed_assertion:
  "parametric_test ''base_a_1'' ''base'' False False skip_step skip_step
       (\<lambda>st. (Some AssertionFailed, st))
     \<lparr>files = {''/w/base.inp'', ''/w/base_expected.py''}, cwd = ''/w''\<rparr>
   = (Some AssertionFailed,
      \<lparr>files = {''/w/testOutput/base_a_1.inp'', ''/w/testOutput/base_a_1.log'',
                ''/w/base.inp'', ''/w/base_expected.py''}, cwd = ''/w''\<rparr>)"
  by (auto simp: parametric_test_def test_body_def try_finally_def then_step_def skip_step_def
      cleanup_def copyfile_def open_w_def os_remove_def runModel_def os_chdir_def path_join_def dirname_def
      suffix_to_prefix Let_def)

text \<open>
  Claim C6 fails on the code. The \<^verbatim>\<open>finally\<close> block removes the files by relative path, one
  after the other. (1) With a model-generation script that produces no input deck,
  \<^verbatim>\<open>_runModel\<close> raises, the first \<^verbatim>\<open>os.remove\<close> raises as well, and the generated script and
  expected-results file stay. (2) When the run of the solver raises, the working directory
  is still \<^verbatim>\<open>testOutput\<close>: the copy of the input deck there is removed instead of the
  generated one, the second \<^verbatim>\<open>os.remove\<close> raises, and the generated input deck and
  expected-results file stay.
\<close>

theorem cleanup_leaves_generated_files:
  "parametric_test ''base_a_1'' ''base'' True False skip_step skip_step skip_step
     \<lparr>files = {''/w/base.py'', ''/w/base_expected.py''}, cwd = ''/w''\<rparr>
   = (Some (OSError ''/w/base_a_1.inp''),
      \<lparr>files = {''/w/base_a_1_expected.py'', ''/w/base_a_1.py'', ''/w/base.py'',
                ''/w/base_expected.py'', ''/w/testOutput/base_a_1.log''}, cwd = ''/w''\<rparr>)
   \<and> parametric_test ''base_a_1'' ''base'' False False skip_step (\<lambda>st. (Some TypeError, st))
       skip_step \<lparr>files = {''/w/base.inp'', ''/w/base_expected.py''}, cwd = ''/w''\<rparr>
   = (Some (OSError ''/w/testOutput/base_a_1_expected.py''),
      \<lparr>files = {''/w/base_a_1_expected.py'', ''/w/base_a_1.inp'', ''/w/base.inp'',
                ''/w/base_expected.py'', ''/w/testOutput/base_a_1.log''},
       cwd = ''/w/testOutput''\<rparr>)"
  by (auto simp: parametric_test_def test_body_def try_finally_def then_step_def skip_step_def
      cleanup_def copyfile_def open_w_def os_remove_def runModel_def os_chdir_def path_join_def
      suffix_to_prefix Let_def)

section \<open>Properties of the expiration time\<close>

text \<open>Only the field \<open>expiration\<close> of the options is written.\<close>

lemma set_expiration_more: "options.more (set_expiration para opts) = options.more opts"
  by (simp add: set_expiration_def Let_def split: option.splits)

text \<open>A job without an expiration of its own runs with the value the job before it left.\<close>

lemma sibling_inherits_expiration:
  "para2 ''expiration'' = None \<Longrightarrow>
     fst (run_jobs [para1, para2] opts) = [job_expiration para1 opts, job_expiration para1 opts]"
  by (simp add: set_expiration_def py_negative_def job_expiration_def Let_def
      split: option.splits)

text \<open>
  Claim C7 fails on the code. The override is written to the shared \<open>options\<close> and never
  restored: with the run-wide default \<open>- 1\<close> (no limit), a job that declares an expiration of
  10 followed by a job that declares none runs both with 10, although the second job alone
  would run without limit.
\<close>

theorem expiration_override_leaks:
  "run_jobs [[''expiration'' \<mapsto> 10], Map.empty] \<lparr>expiration = Some (- 1)\<rparr>
     = ([Some 10, Some 10], \<lparr>expiration = Some 10\<rparr>)
   \<and> job_expiration Map.empty \<lparr>expiration = Some (- 1)\<rparr> = None"
  by (simp add: set_expiration_def py_negative_def job_expiration_def)

section \<open>Properties of the parametric substitution\<close>






section \<open>Properties of the parametric test matrix\<close>

lemma it_product_eq: "it_product xss = product_lists xss"
  by (induction xss) simp_all

lemma length_testCases: "length (testCases ps) = prod_list (map (\<lambda>kd. length (snd kd)) ps)"
  by (simp add: testCases_def it_product_eq length_product_lists prod_list.eq_foldr o_def)

lemma testCases_elem:
  assumes "tc \<in> set (testCases ps)"
  shows "map fst tc = map fst ps \<and> list_all2 (\<lambda>v d. v \<in> set d) (map snd tc) (map snd ps)"
proof -
  obtain x where x: "x \<in> set (product_lists (map snd ps))" and tc: "tc = zip (map fst ps) x"
    using assms by (auto simp: testCases_def it_product_eq)
  have len: "length x = length ps"
    using in_set_product_lists_length [OF x] by simp
  have "list_all2 (\<lambda>v d. v \<in> set d) x (map snd ps)"
    using x by (simp add: product_lists_set)
  then show ?thesis using tc len by simp
qed

lemma sublist_join: "t \<in> set ts \<Longrightarrow> sublist t (join sep ts)"
proof (induction sep ts rule: join.induct)
  case (1 sep)
  then show ?case by simp
next
  case (2 sep x)
  then show ?case by simp
next
  case (3 sep x y ys)
  show ?case
  proof (cases "t = x")
    case True
    then show ?thesis by simp
  next
    case False
    then have "sublist t (join sep (y # ys))" using 3 by simp
    then obtain ps ss where "join sep (y # ys) = ps @ t @ ss" by (auto simp: sublist_def)
    then have "join sep (x # y # ys) = (x @ sep @ ps) @ t @ ss" by simp
    then show ?thesis unfolding sublist_def by blast
  qed
qed

lemma sublist_filter:
  assumes "sublist a b"
  shows "sublist (filter P a) (filter P b)"
proof -
  obtain ps ss where "b = ps @ a @ ss" using assms by (auto simp: sublist_def)
  then have "filter P b = filter P ps @ filter P a @ filter P ss" by simp
  then show ?thesis unfolding sublist_def by blast
qed

lemma token_in_name:
  assumes "kv \<in> set tc"
  shows "sublist (remove_periods (fst kv @ ''_'' @ snd kv)) (test_name b tc)"
proof -
  have "sublist (token kv) (join ''_'' (map token tc))"
    using assms by (simp add: sublist_join)
  then have "sublist (remove_periods (token kv)) (remove_periods (join ''_'' (map token tc)))"
    unfolding remove_periods_def by (rule sublist_filter)
  then obtain ps ss where "remove_periods (join ''_'' (map token tc))
      = ps @ remove_periods (token kv) @ ss"
    by (auto simp: sublist_def)
  then have "test_name b tc = (b @ ''_'' @ ps) @ remove_periods (token kv) @ ss"
    by (simp add: test_name_def)
  then show ?thesis unfolding sublist_def token_def by blast
qed

lemma join_Cons: "join sep (x # xs) = x @ concat (map (\<lambda>y. sep @ y) xs)"
  by (induction xs arbitrary: x) simp_all

lemma name_tail:
  "tc \<noteq> [] \<Longrightarrow> ''_'' @ remove_periods (join ''_'' (map token tc)) = tail_of tc"
  by (cases tc)
    (simp_all add: join_Cons tail_of_def remove_periods_def token_def filter_concat o_def)

lemma split_unique:
  assumes "c \<notin> set a" "c \<notin> set b" "t = [] \<or> hd t = c" "u = [] \<or> hd u = c" "a @ t = b @ u"
  shows "a = b \<and> t = u"
proof -
  have "takeWhile (\<lambda>x. x \<noteq> c) (a @ t) = a @ takeWhile (\<lambda>x. x \<noteq> c) t"
    using assms(1) by (intro takeWhile_append2) auto
  moreover have "takeWhile (\<lambda>x. x \<noteq> c) t = []"
    using assms(3) by (cases t) auto
  moreover have "takeWhile (\<lambda>x. x \<noteq> c) (b @ u) = b @ takeWhile (\<lambda>x. x \<noteq> c) u"
    using assms(2) by (intro takeWhile_append2) auto
  moreover have "takeWhile (\<lambda>x. x \<noteq> c) u = []"
    using assms(4) by (cases u) auto
  ultimately have "a = b" using assms(5) by simp
  then show ?thesis using assms(5) by simp
qed

lemma tail_of_start: "tail_of tc = [] \<or> hd (tail_of tc) = CHR ''_''"
  by (cases tc) (simp_all add: tail_of_def)

lemma remove_periods_set: "c \<notin> set v \<Longrightarrow> c \<notin> set (remove_periods v)"
  by (simp add: remove_periods_def)

lemma tail_of_inj:
  "length xs = length ks \<Longrightarrow> length ys = length ks \<Longrightarrow>
   \<forall>v \<in> set xs \<union> set ys. CHR ''_'' \<notin> set v \<Longrightarrow>
   tail_of (zip ks xs) = tail_of (zip ks ys) \<Longrightarrow>
   map remove_periods xs = map remove_periods ys"
proof (induction ks arbitrary: xs ys)
  case Nil
  then show ?case by simp
next
  case (Cons k ks)
  obtain x xs' where xs: "xs = x # xs'" using Cons.prems(1) by (cases xs) auto
  obtain y ys' where ys: "ys = y # ys'" using Cons.prems(2) by (cases ys) auto
  have eq: "remove_periods x @ tail_of (zip ks xs') = remove_periods y @ tail_of (zip ks ys')"
    using Cons.prems(4) xs ys by (simp add: tail_of_def)
  have nx: "CHR ''_'' \<notin> set (remove_periods x)" and ny: "CHR ''_'' \<notin> set (remove_periods y)"
    using Cons.prems(3) xs ys by (simp_all add: remove_periods_set)
  have "remove_periods x = remove_periods y \<and> tail_of (zip ks xs') = tail_of (zip ks ys')"
    using split_unique [OF nx ny tail_of_start tail_of_start eq] .
  moreover have "map remove_periods xs' = map remove_periods ys'"
    if "tail_of (zip ks xs') = tail_of (zip ks ys')"
    using Cons.IH [of xs' ys'] Cons.prems xs ys that by simp
  ultimately show ?case using xs ys by simp
qed

lemma map_inj_domains:
  "list_all2 (\<lambda>v d. v \<in> set d) xs ds \<Longrightarrow> list_all2 (\<lambda>v d. v \<in> set d) ys ds \<Longrightarrow>
   \<forall>d \<in> set ds. inj_on f (set d) \<Longrightarrow> map f xs = map f ys \<Longrightarrow> xs = ys"
proof (induction ds arbitrary: xs ys)
  case Nil
  then show ?case by simp
next
  case (Cons d ds)
  obtain x xs' where xs: "xs = x # xs'" "x \<in> set d" "list_all2 (\<lambda>v d. v \<in> set d) xs' ds"
    using Cons.prems(1) by (auto simp: list_all2_Cons2)
  obtain y ys' where ys: "ys = y # ys'" "y \<in> set d" "list_all2 (\<lambda>v d. v \<in> set d) ys' ds"
    using Cons.prems(2) by (auto simp: list_all2_Cons2)
  have "x = y" using Cons.prems(3,4) xs ys by (auto dest: inj_onD)
  moreover have "xs' = ys'" using Cons.IH [OF xs(3) ys(3)] Cons.prems(3,4) xs ys by simp
  ultimately show ?case using xs ys by simp
qed

lemma in_domain:
  "list_all2 (\<lambda>v d. v \<in> set d) xs ds \<Longrightarrow> v \<in> set xs \<Longrightarrow> \<exists>d \<in> set ds. v \<in> set d"
  by (induction rule: list_all2_induct) auto

lemma distinct_test_names:
  assumes "\<forall>d \<in> set (map snd ps). distinct (map remove_periods d) \<and> (\<forall>v \<in> set d. CHR ''_'' \<notin> set v)"
  shows "distinct (test_names b ps)"
proof -
  let ?ks = "map fst ps" and ?ds = "map snd ps"
  let ?F = "\<lambda>x. test_name b (zip ?ks x)"
  have names: "test_names b ps = map ?F (product_lists ?ds)"
    by (simp add: test_names_def testCases_def it_product_eq o_def)
  have dd: "\<forall>d \<in> set ?ds. distinct d \<and> inj_on remove_periods (set d)"
    using assms by (auto simp: distinct_map)
  have d1: "distinct (product_lists ?ds)"
    using dd by (intro distinct_product_lists) auto
  have inj: "inj_on ?F (set (product_lists ?ds))"
  proof (rule inj_onI)
    fix x y
    assume x: "x \<in> set (product_lists ?ds)" and y: "y \<in> set (product_lists ?ds)"
      and eq: "?F x = ?F y"
    have lx: "length x = length ?ks" and ly: "length y = length ?ks"
      using in_set_product_lists_length [OF x] in_set_product_lists_length [OF y] by simp_all
    have ax: "list_all2 (\<lambda>v d. v \<in> set d) x ?ds" and ay: "list_all2 (\<lambda>v d. v \<in> set d) y ?ds"
      using x y by (simp_all add: product_lists_set)
    show "x = y"
    proof (cases "ps = []")
      case True
      then show ?thesis using lx ly by simp
    next
      case False
      then have nz: "zip ?ks x \<noteq> []" "zip ?ks y \<noteq> []"
        using lx ly by (cases ps; cases x; cases y; simp)+
      have "remove_periods (join ''_'' (map token (zip ?ks x)))
          = remove_periods (join ''_'' (map token (zip ?ks y)))"
        using eq by (simp add: test_name_def)
      then have t: "tail_of (zip ?ks x) = tail_of (zip ?ks y)"
        using name_tail [OF nz(1)] name_tail [OF nz(2)] by simp
      have us: "\<forall>v \<in> set x \<union> set y. CHR ''_'' \<notin> set v"
      proof
        fix v assume "v \<in> set x \<union> set y"
        then obtain d where "d \<in> set ?ds" "v \<in> set d"
          using in_domain [OF ax] in_domain [OF ay] by blast
        then show "CHR ''_'' \<notin> set v" using assms by auto
      qed
      have "map remove_periods x = map remove_periods y"
        using tail_of_inj [OF lx ly us t] .
      then show ?thesis
        using map_inj_domains [OF ax ay, of remove_periods] dd by simp
    qed
  qed
  show ?thesis using names d1 inj by (simp add: distinct_map)
qed

lemma remove_periods_id: "CHR ''.'' \<notin> set s \<Longrightarrow> remove_periods s = s"
  by (auto simp: remove_periods_def filter_id_conv)

lemma join_no_period:
  "CHR ''.'' \<notin> set sep \<Longrightarrow> \<forall>x \<in> set xs. CHR ''.'' \<notin> set x \<Longrightarrow> CHR ''.'' \<notin> set (join sep xs)"
  by (induction sep xs rule: join.induct) simp_all

lemma testCases_no_period:
  assumes "\<forall>kd \<in> set ps. CHR ''.'' \<notin> set (fst kd) \<and> (\<forall>v \<in> set (snd kd). CHR ''.'' \<notin> set v)"
    and "tc \<in> set (testCases ps)"
  shows "\<forall>kv \<in> set tc. CHR ''.'' \<notin> set (token kv)"
proof
  fix kv assume kv: "kv \<in> set tc"
  have e: "map fst tc = map fst ps" "list_all2 (\<lambda>v d. v \<in> set d) (map snd tc) (map snd ps)"
    using testCases_elem [OF assms(2)] by simp_all
  have "fst kv \<in> set (map fst ps)" using kv e(1) by (metis image_eqI set_map)
  then have k: "CHR ''.'' \<notin> set (fst kv)" using assms(1) by auto
  have "snd kv \<in> set (map snd tc)" using kv by simp
  then obtain d where "d \<in> set (map snd ps)" "snd kv \<in> set d"
    using in_domain [OF e(2)] by blast
  then have "CHR ''.'' \<notin> set (snd kv)" using assms(1) by auto
  then show "CHR ''.'' \<notin> set (token kv)" using k by (simp add: token_def)
qed

lemma test_name_no_period:
  assumes "\<forall>kd \<in> set ps. CHR ''.'' \<notin> set (fst kd) \<and> (\<forall>v \<in> set (snd kd). CHR ''.'' \<notin> set v)"
    and "tc \<in> set (testCases ps)"
  shows "test_name b tc = b @ ''_'' @ join ''_'' (map (\<lambda>kv. fst kv @ ''_'' @ snd kv) tc)"
proof -
  have "CHR ''.'' \<notin> set (join ''_'' (map token tc))"
    using testCases_no_period [OF assms] by (intro join_no_period) simp_all
  then have "remove_periods (join ''_'' (map token tc)) = join ''_'' (map token tc)"
    by (rule remove_periods_id)
  moreover have "token = (\<lambda>kv. fst kv @ ''_'' @ snd kv)"
    by (rule ext) (simp add: token_def)
  ultimately show ?thesis by (simp add: test_name_def)
qed

lemma token_in_plain_name:
  assumes "\<forall>kd \<in> set ps. CHR ''.'' \<notin> set (fst kd) \<and> (\<forall>v \<in> set (snd kd). CHR ''.'' \<notin> set v)"
    and "tc \<in> set (testCases ps)" and "kv \<in> set tc"
  shows "sublist (fst kv @ ''_'' @ snd kv) (test_name b tc)"
proof -
  have "CHR ''.'' \<notin> set (token kv)" using testCases_no_period [OF assms(1,2)] assms(3) by simp
  then have "remove_periods (fst kv @ ''_'' @ snd kv) = fst kv @ ''_'' @ snd kv"
    using remove_periods_id [of "token kv"] by (simp add: token_def)
  then show ?thesis using token_in_name [OF assms(3), of b] by simp
qed

lemma distinct_plain_names:
  assumes "\<forall>kd \<in> set ps. CHR ''.'' \<notin> set (fst kd) \<and> (\<forall>v \<in> set (snd kd). CHR ''.'' \<notin> set v)"
    and "\<forall>kd \<in> set ps. distinct (snd kd) \<and> (\<forall>v \<in> set (snd kd). CHR ''_'' \<notin> set v)"
  shows "distinct (test_names b ps)"
proof (rule distinct_test_names)
  show "\<forall>d \<in> set (map snd ps). distinct (map remove_periods d) \<and> (\<forall>v \<in> set d. CHR ''_'' \<notin> set v)"
  proof
    fix d assume "d \<in> set (map snd ps)"
    then obtain kd where kd: "kd \<in> set ps" "d = snd kd" by auto
    have "map remove_periods d = d"
      using assms(1) kd by (intro map_idI remove_periods_id) auto
    then show "distinct (map remove_periods d) \<and> (\<forall>v \<in> set d. CHR ''_'' \<notin> set v)"
      using assms(2) kd by auto
  qed
qed

text \<open>
  Claim C4, as amended. For parameter domains \<open>D1, ..., Dn\<close> the generator produces exactly
  \<open>|D1| \<times> ... \<times> |Dn|\<close> test names, one for every combination of one value per domain. When no
  key and no value contains a period, the name of a combination is the base name, an
  underscore, and the tokens \<^verbatim>\<open>key_value\<close> of the combination (key and value joined by an
  underscore, not by \<open>=\<close>) joined by underscores, so it contains every such token; and the
  names are distinct when the values of each domain are distinct and contain no underscore.
\<close>

theorem test_matrix_names:
  "length (test_names b ps) = prod_list (map (\<lambda>kd. length (snd kd)) ps)
   \<and> (\<forall>tc \<in> set (testCases ps).
         map fst tc = map fst ps
         \<and> list_all2 (\<lambda>v d. v \<in> set d) (map snd tc) (map snd ps))
   \<and> ((\<forall>kd \<in> set ps. CHR ''.'' \<notin> set (fst kd) \<and> (\<forall>v \<in> set (snd kd). CHR ''.'' \<notin> set v))
        \<longrightarrow> (\<forall>tc \<in> set (testCases ps).
               test_name b tc = b @ ''_'' @ join ''_'' (map (\<lambda>kv. fst kv @ ''_'' @ snd kv) tc)
               \<and> (\<forall>kv \<in> set tc. sublist (fst kv @ ''_'' @ snd kv) (test_name b tc)))
            \<and> ((\<forall>kd \<in> set ps. distinct (snd kd) \<and> (\<forall>v \<in> set (snd kd). CHR ''_'' \<notin> set v))
                 \<longrightarrow> distinct (test_names b ps)))"
proof -
  have "length (test_names b ps) = prod_list (map (\<lambda>kd. length (snd kd)) ps)"
    by (simp add: test_names_def length_testCases)
  then show ?thesis
    using testCases_elem test_name_no_period token_in_plain_name distinct_plain_names
    by blast
qed

theorem test_matrix_names_witness:
  "test_names ''job'' [(''alpha'', [''-40'', ''-30'']), (''beta'', [''60'', ''90''])]
     = [''job_alpha_-40_beta_60'', ''job_alpha_-40_beta_90'',
        ''job_alpha_-30_beta_60'', ''job_alpha_-30_beta_90'']
   \<and> distinct (test_names ''job'' [(''alpha'', [''-40'', ''-30'']), (''beta'', [''60'', ''90''])])
   \<and> length (test_names ''job'' [(''alpha'', [''-40'', ''-30'']), (''beta'', [''60'', ''90''])])
       = 2 * 2"
  using test_matrix_names [of "''job''"
      "[(''alpha'', [''-40'', ''-30'']), (''beta'', [''60'', ''90''])]"]
  by (simp add: test_names_def testCases_def test_name_def token_def remove_periods_def)

text \<open>Claim C4 as stated fails: the token of a parameter is \<^verbatim>\<open>key_value\<close>, so a name does not
  contain \<^verbatim>\<open>key=value\<close>, and with underscores in the values two combinations can have the
  same name.\<close>

theorem key_value_token_counterexample:
  "test_names ''job'' [(''a'', [''1'', ''2''])] = [''job_a_1'', ''job_a_2'']
   \<and> \<not> sublist ''a=1'' ''job_a_1''
   \<and> test_names ''job'' [(''a'', [''1_b_2'', ''1'']), (''b'', [''3'', ''2_b_3''])]
       = [''job_a_1_b_2_b_3'', ''job_a_1_b_2_b_2_b_3'', ''job_a_1_b_3'', ''job_a_1_b_2_b_3'']
   \<and> \<not> distinct (test_names ''job'' [(''a'', [''1_b_2'', ''1'']), (''b'', [''3'', ''2_b_3''])])"
  by (simp add: test_names_def testCases_def test_name_def token_def remove_periods_def
      sublist_code(3))

end
